theory Spec2Isabelle
  imports Main "HOL-Library.Word"
begin

section \<open>Memory model\<close>

text \<open>
  The allocator of \<^verbatim>\<open>dynalloc.c\<close> is embedded for an LP64 target: addresses and
  \<^verbatim>\<open>size_t\<close> are 64-bit words (arithmetic wraps, comparisons are unsigned),
  \<^verbatim>\<open>sizeof(Header)\<close> is 32 (three 8-byte fields, one \<^verbatim>\<open>char\<close>, padding) and the size
  of a pointer is 8.

  The store is a split heap: header objects are kept per address, data bytes per address.
  Two header objects at different addresses never alias in this model. An access through
  the null pointer, or to an address outside the region between the initial program break
  and the current one, is undefined behaviour in C; the model returns it as a fault value.
\<close>

type_synonym addr = "64 word"

record Header =
  hnext :: addr
  hprev :: addr
  hsize :: "64 word"
  hfree :: "8 word"

datatype fault = NullDeref | BadAccess

record state =
  hdrs :: "addr \<Rightarrow> Header"
  bytes :: "addr \<Rightarrow> 8 word"
  first :: addr
  brk_cur :: addr
  heap_lo :: addr
  heap_hi :: addr

definition MIN_BLOCK_SIZE :: "64 word" where
  "MIN_BLOCK_SIZE = 32"

definition sizeof_Header :: "64 word" where
  "sizeof_Header = 32"

text \<open>\<^verbatim>\<open>sizeof(header)\<close> in \<^verbatim>\<open>split_block\<close>, where \<^verbatim>\<open>header\<close> is a \<^verbatim>\<open>Header *\<close>.\<close>

definition sizeof_header_ptr :: "64 word" where
  "sizeof_header_ptr = 8"

text \<open>The \<open>n\<close> bytes from address \<open>a\<close> on lie inside the heap region.\<close>

definition in_heap :: "state \<Rightarrow> addr \<Rightarrow> int \<Rightarrow> bool" where
  "in_heap s a n = (uint (heap_lo s) \<le> uint a \<and> uint a + n \<le> uint (brk_cur s))"

definition bind_f :: "fault + 'a \<Rightarrow> ('a \<Rightarrow> fault + 'b) \<Rightarrow> fault + 'b" where
  "bind_f m f = (case m of Inl e \<Rightarrow> Inl e | Inr x \<Rightarrow> f x)"

text \<open>Reading a header object through a pointer, and writing one of its fields.\<close>

definition rd :: "state \<Rightarrow> addr \<Rightarrow> fault + Header" where
  "rd s a = (if a = 0 then Inl NullDeref
             else if in_heap s a 32 then Inr (hdrs s a)
             else Inl BadAccess)"

definition wr :: "state \<Rightarrow> addr \<Rightarrow> (Header \<Rightarrow> Header) \<Rightarrow> fault + state" where
  "wr s a f = (if a = 0 then Inl NullDeref
               else if in_heap s a 32 then Inr (s\<lparr>hdrs := (hdrs s)(a := f (hdrs s a))\<rparr>)
               else Inl BadAccess)"

definition rd_byte :: "state \<Rightarrow> addr \<Rightarrow> fault + 8 word" where
  "rd_byte s a = (if a = 0 then Inl NullDeref
                  else if in_heap s a 1 then Inr (bytes s a)
                  else Inl BadAccess)"

definition wr_byte :: "state \<Rightarrow> addr \<Rightarrow> 8 word \<Rightarrow> fault + state" where
  "wr_byte s a b = (if a = 0 then Inl NullDeref
                    else if in_heap s a 1 then Inr (s\<lparr>bytes := (bytes s)(a := b)\<rparr>)
                    else Inl BadAccess)"

section \<open>Heap Region Manager\<close>

text \<open>
  Modelled from the spec: \<^verbatim>\<open>sbrk\<close> and \<^verbatim>\<open>brk\<close> are the operating system's; the source
  only calls them. \<^verbatim>\<open>sbrk(n)\<close> extends the heap boundary by \<^verbatim>\<open>n\<close> bytes and returns the
  previous boundary, or the failure indicator \<^verbatim>\<open>(void * ) -1\<close> when the request is denied;
  its argument is a signed \<^verbatim>\<open>intptr_t\<close>. The request is denied when the new boundary would
  leave the interval from \<open>heap_lo\<close> to \<open>heap_hi\<close>. \<^verbatim>\<open>brk(a)\<close> moves the boundary to \<open>a\<close>.
\<close>

definition sbrk :: "state \<Rightarrow> 64 word \<Rightarrow> addr \<times> state" where
  "sbrk s incr =
     (let nb = uint (brk_cur s) + sint incr
      in if nb < uint (heap_lo s) \<or> uint (heap_hi s) < nb then (- 1, s)
         else (brk_cur s, s\<lparr>brk_cur := word_of_int nb\<rparr>))"

definition brk :: "state \<Rightarrow> addr \<Rightarrow> state" where
  "brk s a = (if a < heap_lo s \<or> heap_hi s < a then s else s\<lparr>brk_cur := a\<rparr>)"

section \<open>Block Directory primitives\<close>

definition merge_blocks :: "state \<Rightarrow> addr \<Rightarrow> addr \<Rightarrow> fault + state \<times> addr" where
  "merge_blocks s head1 head2 =
     (let first_header = (if head1 > head2 then head2 else head1);
          second_header = (if head1 > head2 then head1 else head2)
      in bind_f (rd s head1) (\<lambda>h1.
         bind_f (rd s head2) (\<lambda>h2.
         bind_f (wr s first_header (\<lambda>h. h\<lparr>hsize := sizeof_Header + hsize h1 + hsize h2\<rparr>)) (\<lambda>s1.
         bind_f (rd s1 second_header) (\<lambda>sh.
         bind_f (wr s1 first_header (\<lambda>h. h\<lparr>hnext := hnext sh\<rparr>)) (\<lambda>s2.
         bind_f (rd s2 second_header) (\<lambda>sh2.
           if hnext sh2 \<noteq> 0
           then bind_f (wr s2 (hnext sh2) (\<lambda>h. h\<lparr>hprev := first_header\<rparr>)) (\<lambda>s3.
                  Inr (s3, first_header))
           else Inr (s2, first_header))))))))"

definition split_block :: "state \<Rightarrow> addr \<Rightarrow> 64 word \<Rightarrow> fault + state \<times> addr" where
  "split_block s header new_size =
     bind_f (rd s header) (\<lambda>h.
       let new_block_size = hsize h - new_size - sizeof_header_ptr
       in if new_block_size < MIN_BLOCK_SIZE then Inr (s, 0)
          else
            let new_header = header + sizeof_Header + new_size
            in bind_f (wr s new_header (\<lambda>h. h\<lparr>hprev := header\<rparr>)) (\<lambda>s1.
               bind_f (rd s1 header) (\<lambda>h1.
               bind_f (wr s1 new_header (\<lambda>h. h\<lparr>hnext := hnext h1\<rparr>)) (\<lambda>s2.
               bind_f (wr s2 new_header (\<lambda>h. h\<lparr>hsize := new_block_size\<rparr>)) (\<lambda>s3.
               bind_f (wr s3 new_header (\<lambda>h. h\<lparr>hfree := 1\<rparr>)) (\<lambda>s4.
               bind_f (rd s4 header) (\<lambda>h4.
               bind_f (wr s4 (hnext h4) (\<lambda>h. h\<lparr>hprev := new_header\<rparr>)) (\<lambda>s5.
               bind_f (wr s5 header (\<lambda>h. h\<lparr>hnext := new_header\<rparr>)) (\<lambda>s6.
                 Inr (s6, new_header))))))))))"

section \<open>Allocator\<close>

text \<open>
  The loops of the source follow pointers that the program itself wrote, so they need not
  terminate (a cyclic chain); they are partial functions, \<open>None\<close> standing for a loop that
  never returns.

  The inner loop of \<^verbatim>\<open>malloc\<close>: merge the current run of free blocks.
\<close>

partial_function (option) merge_free_run :: "state \<Rightarrow> addr \<Rightarrow> (fault + state \<times> addr) option" where
  "merge_free_run s cur =
     (case rd s cur of
        Inl e \<Rightarrow> Some (Inl e)
      | Inr c \<Rightarrow>
          if hfree c \<noteq> 0 \<and> hnext c \<noteq> 0
          then (case rd s (hnext c) of
                  Inl e \<Rightarrow> Some (Inl e)
                | Inr n \<Rightarrow>
                    if hfree n \<noteq> 0
                    then (case merge_blocks s cur (hnext c) of
                            Inl e \<Rightarrow> Some (Inl e)
                          | Inr (s', cur') \<Rightarrow> merge_free_run s' cur')
                    else Some (Inr (s, cur)))
          else Some (Inr (s, cur)))"

declare merge_free_run.simps [code]

text \<open>
  The first-fit scan: either a block is found and its data pointer returned, or the chain
  is exhausted and the last block visited is remembered.
\<close>

datatype scan = Found addr | NoFit addr

partial_function (option) find_fit ::
  "state \<Rightarrow> 64 word \<Rightarrow> addr \<Rightarrow> addr \<Rightarrow> (fault + state \<times> scan) option" where
  "find_fit s sz cur lst =
     (if cur = 0 then Some (Inr (s, NoFit lst))
      else
        Option.bind (merge_free_run s cur) (\<lambda>r.
          case r of
            Inl e \<Rightarrow> Some (Inl e)
          | Inr (s1, c) \<Rightarrow>
              (case rd s1 c of
                 Inl e \<Rightarrow> Some (Inl e)
               | Inr h \<Rightarrow>
                   if hfree h \<noteq> 0 \<and> hsize h \<ge> sz
                   then Some (bind_f (split_block s1 c sz) (\<lambda>(s2, _).
                              bind_f (wr s2 c (\<lambda>h. h\<lparr>hfree := 0\<rparr>)) (\<lambda>s3.
                                Inr (s3, Found (c + sizeof_Header)))))
                   else find_fit s1 sz (hnext h) c)))"

declare find_fit.simps [code]

definition extend_heap :: "state \<Rightarrow> 64 word \<Rightarrow> addr \<Rightarrow> fault + state \<times> addr" where
  "extend_heap s sz lst =
     (let (new_block, s0) = sbrk s (sz + sizeof_Header)
      in bind_f (wr s0 new_block (\<lambda>h. h\<lparr>hprev := lst\<rparr>)) (\<lambda>s1.
         bind_f (wr s1 new_block (\<lambda>h. h\<lparr>hnext := 0\<rparr>)) (\<lambda>s2.
         bind_f (wr s2 new_block (\<lambda>h. h\<lparr>hsize := sz\<rparr>)) (\<lambda>s3.
         bind_f (wr s3 new_block (\<lambda>h. h\<lparr>hfree := 0\<rparr>)) (\<lambda>s4.
           Inr (if first s4 = 0 then s4\<lparr>first := new_block\<rparr> else s4,
                new_block + sizeof_Header))))))"

definition malloc :: "state \<Rightarrow> 64 word \<Rightarrow> (fault + state \<times> addr) option" where
  "malloc s size0 =
     (let sz = (if size0 < MIN_BLOCK_SIZE then MIN_BLOCK_SIZE else size0)
      in Option.bind (find_fit s sz (first s) 0) (\<lambda>r.
           case r of
             Inl e \<Rightarrow> Some (Inl e)
           | Inr (s1, Found p) \<Rightarrow> Some (Inr (s1, p))
           | Inr (s1, NoFit lst) \<Rightarrow> Some (extend_heap s1 sz lst)))"

section \<open>Deallocator\<close>

text \<open>The backward walk over the trailing run of free blocks.\<close>

partial_function (option) walk_back :: "state \<Rightarrow> addr \<Rightarrow> (fault + addr) option" where
  "walk_back s cur =
     (if cur \<noteq> first s
      then (case rd s cur of
              Inl e \<Rightarrow> Some (Inl e)
            | Inr c \<Rightarrow>
                (case rd s (hprev c) of
                   Inl e \<Rightarrow> Some (Inl e)
                 | Inr p \<Rightarrow> if hfree p \<noteq> 0 then walk_back s (hprev c) else Some (Inr cur)))
      else Some (Inr cur))"

declare walk_back.simps [code]

text \<open>
  The body that \<^verbatim>\<open>free\<close> and \<^verbatim>\<open>free_with_caution\<close> both run on the header they settled
  on: set the flag and, for the last block of the chain, give the trailing free run back.
\<close>

definition release :: "state \<Rightarrow> addr \<Rightarrow> (fault + state) option" where
  "release s header =
     (case wr s header (\<lambda>h. h\<lparr>hfree := 1\<rparr>) of
        Inl e \<Rightarrow> Some (Inl e)
      | Inr s1 \<Rightarrow>
          (case rd s1 header of
             Inl e \<Rightarrow> Some (Inl e)
           | Inr h \<Rightarrow>
               if hnext h = 0
               then Option.bind (walk_back s1 header) (\<lambda>r.
                      case r of
                        Inl e \<Rightarrow> Some (Inl e)
                      | Inr cur \<Rightarrow>
                          Some (Inr (brk (if cur = first s1 then s1\<lparr>first := 0\<rparr> else s1) cur)))
               else Some (Inr s1)))"

definition free :: "state \<Rightarrow> addr \<Rightarrow> (fault + state) option" where
  "free s address =
     (if address = 0 then Some (Inr s)
      else release s (address - sizeof_Header))"

partial_function (option) find_header :: "state \<Rightarrow> addr \<Rightarrow> addr \<Rightarrow> (fault + state) option" where
  "find_header s header cur =
     (if cur = 0 then Some (Inr s)
      else if cur = header then release s cur
      else (case rd s cur of
              Inl e \<Rightarrow> Some (Inl e)
            | Inr c \<Rightarrow> find_header s header (hnext c)))"

declare find_header.simps [code]

definition free_with_caution :: "state \<Rightarrow> addr \<Rightarrow> (fault + state) option" where
  "free_with_caution s address =
     (let cur = first s
      in if address = 0 then Some (Inr s)
         else find_header s (address - sizeof_Header) cur)"

section \<open>Reallocator\<close>

function copy_loop :: "state \<Rightarrow> addr \<Rightarrow> addr \<Rightarrow> 64 word \<Rightarrow> fault + state" where
  "copy_loop s src dst i =
     (case rd s src of
        Inl e \<Rightarrow> Inl e
      | Inr h \<Rightarrow>
          if i < hsize h
          then (case rd_byte s (src + sizeof_Header + i) of
                  Inl e \<Rightarrow> Inl e
                | Inr b \<Rightarrow>
                    (case wr_byte s (dst + sizeof_Header + i) b of
                       Inl e \<Rightarrow> Inl e
                     | Inr s' \<Rightarrow> copy_loop s' src dst (i + 1)))
          else Inr s)"
  by pat_completeness auto
termination
proof (relation "measure (\<lambda>(s, src, dst, i). unat (hsize (hdrs s src)) - unat i)")
  show "wf (measure (\<lambda>(s, src, dst, i). unat (hsize (hdrs s src)) - unat i))"
    by simp
next
  fix s src dst i h b s'
  assume r: "rd s src = Inr h" and i: "i < hsize h"
    and w: "wr_byte s (dst + sizeof_Header + i) b = Inr s'"
  from r have h: "h = hdrs s src"
    by (auto simp: rd_def split: if_splits)
  from w have s': "hdrs s' = hdrs s"
    by (auto simp: wr_byte_def split: if_splits)
  from i have lt: "unat i < unat (hsize h)"
    by (simp add: word_less_nat_alt)
  moreover have "unat (hsize h) < 2 ^ 64"
    using unsigned_less [of "hsize h"] by simp
  ultimately have "unat i + 1 < 2 ^ 64"
    by simp
  then have "unat (i + 1) = unat i + 1"
    by (simp add: unat_word_ariths)
  with lt h s' show "((s', src, dst, i + 1), (s, src, dst, i))
      \<in> measure (\<lambda>(s, src, dst, i). unat (hsize (hdrs s src)) - unat i)"
    by simp
qed

declare copy_loop.simps [simp del]

definition copy_data :: "state \<Rightarrow> addr \<Rightarrow> addr \<Rightarrow> fault + state" where
  "copy_data s src dst = copy_loop s src dst 0"

text \<open>The loop of \<^verbatim>\<open>realloc\<close> that gathers the free blocks following \<^verbatim>\<open>header->next\<close>.\<close>

partial_function (option) absorb_next :: "state \<Rightarrow> addr \<Rightarrow> (fault + state) option" where
  "absorb_next s header =
     (case rd s header of
        Inl e \<Rightarrow> Some (Inl e)
      | Inr h \<Rightarrow>
          (case rd s (hnext h) of
             Inl e \<Rightarrow> Some (Inl e)
           | Inr n \<Rightarrow>
               (case rd s (hnext n) of
                  Inl e \<Rightarrow> Some (Inl e)
                | Inr nn \<Rightarrow>
                    if hfree nn \<noteq> 0
                    then (case merge_blocks s (hnext h) (hnext n) of
                            Inl e \<Rightarrow> Some (Inl e)
                          | Inr (s', _) \<Rightarrow> absorb_next s' header)
                    else Some (Inr s))))"

declare absorb_next.simps [code]

text \<open>The last resort of \<^verbatim>\<open>realloc\<close>: a fresh block, the copy, the release of the old one.\<close>

definition realloc_fallback :: "state \<Rightarrow> addr \<Rightarrow> addr \<Rightarrow> 64 word \<Rightarrow> (fault + state \<times> addr) option" where
  "realloc_fallback s address header sz =
     Option.bind (malloc s sz) (\<lambda>r.
       case r of
         Inl e \<Rightarrow> Some (Inl e)
       | Inr (s1, new_address) \<Rightarrow>
           if new_address = 0 then Some (Inr (s1, 0))
           else (case copy_data s1 header (new_address - sizeof_Header) of
                   Inl e \<Rightarrow> Some (Inl e)
                 | Inr s2 \<Rightarrow>
                     Option.bind (free s2 address) (\<lambda>r2.
                       case r2 of
                         Inl e \<Rightarrow> Some (Inl e)
                       | Inr s3 \<Rightarrow> Some (Inr (s3, new_address)))))"

text \<open>
  \<^verbatim>\<open>size_diff\<close> is a \<^verbatim>\<open>size_t\<close>: the subtraction wraps and the comparison with 0 is the
  unsigned one, as the source has it.
\<close>

definition realloc :: "state \<Rightarrow> addr \<Rightarrow> 64 word \<Rightarrow> (fault + state \<times> addr) option" where
  "realloc s address sz =
     (if address = 0 then Some (Inr (s, 0))
      else
        let header = address - sizeof_Header
        in case rd s header of
             Inl e \<Rightarrow> Some (Inl e)
           | Inr h \<Rightarrow>
               let size_diff = sz - hsize h
               in if size_diff < 0
                  then Some (bind_f (split_block s header sz) (\<lambda>(s1, _). Inr (s1, address)))
                  else if hnext h = 0
                  then (let (_, s1) = sbrk s size_diff
                        in Some (bind_f (wr s1 header (\<lambda>h. h\<lparr>hsize := sz\<rparr>)) (\<lambda>s2.
                                   Inr (s2, address))))
                  else
                    (case rd s (hnext h) of
                       Inl e \<Rightarrow> Some (Inl e)
                     | Inr n \<Rightarrow>
                         if hfree n \<noteq> 0
                         then Option.bind (absorb_next s header) (\<lambda>r.
                                case r of
                                  Inl e \<Rightarrow> Some (Inl e)
                                | Inr s1 \<Rightarrow>
                                    (case bind_f (rd s1 header) (\<lambda>h1. rd s1 (hnext h1)) of
                                       Inl e \<Rightarrow> Some (Inl e)
                                     | Inr n1 \<Rightarrow>
                                         if hsize n1 \<ge> size_diff
                                         then Some (bind_f (rd s1 header) (\<lambda>h1.
                                                    bind_f (split_block s1 (hnext h1) size_diff) (\<lambda>(s2, _).
                                                    bind_f (rd s2 header) (\<lambda>h2.
                                                    bind_f (merge_blocks s2 header (hnext h2)) (\<lambda>(s3, _).
                                                      Inr (s3, address))))))
                                         else realloc_fallback s1 address header sz))
                         else realloc_fallback s address header sz))"

section \<open>Well-formed directories and sample heaps\<close>

text \<open>A pointer through which a header can be read and written.\<close>

definition valid_hdr :: "state \<Rightarrow> addr \<Rightarrow> bool" where
  "valid_hdr s a = (a \<noteq> 0 \<and> in_heap s a 32)"

text \<open>
  \<open>chain s a xs\<close>: following the \<^verbatim>\<open>next\<close> links from \<open>a\<close> visits exactly the headers \<open>xs\<close>,
  all of them readable, and then reaches the null pointer.
\<close>

fun chain :: "state \<Rightarrow> addr \<Rightarrow> addr list \<Rightarrow> bool" where
  "chain s a [] = (a = 0)"
| "chain s a (x # xs) = (a = x \<and> valid_hdr s a \<and> chain s (hnext (hdrs s a)) xs)"

definition hdr0 :: Header where
  "hdr0 = \<lparr>hnext = 0, hprev = 0, hsize = 0, hfree = 0\<rparr>"

definition mk_state :: "(addr \<Rightarrow> Header) \<Rightarrow> addr \<Rightarrow> addr \<Rightarrow> state" where
  "mk_state m b hi =
     \<lparr>hdrs = m, bytes = (\<lambda>_. 0), first = 4096, brk_cur = b, heap_lo = 4096, heap_hi = hi\<rparr>"

text \<open>One block of 32 bytes, in use; the operating system grants growth up to \<open>hi\<close>.\<close>

definition heap_one :: "addr \<Rightarrow> state" where
  "heap_one hi =
     mk_state ((\<lambda>_. hdr0)(4096 := \<lparr>hnext = 0, hprev = 0, hsize = 32, hfree = 0\<rparr>)) 4160 hi"

text \<open>A block of 100 bytes followed by the last block, of 32 bytes; both in use.\<close>

definition heap_two :: "addr \<Rightarrow> state" where
  "heap_two hi =
     mk_state ((\<lambda>_. hdr0)(4096 := \<lparr>hnext = 4228, hprev = 0, hsize = 100, hfree = 0\<rparr>,
                           4228 := \<lparr>hnext = 0, hprev = 4096, hsize = 32, hfree = 0\<rparr>)) 4292 hi"

text \<open>A free block of exactly 32 bytes followed by the last block, in use.\<close>

definition heap_exact :: state where
  "heap_exact =
     mk_state ((\<lambda>_. hdr0)(4096 := \<lparr>hnext = 4160, hprev = 0, hsize = 32, hfree = 1\<rparr>,
                           4160 := \<lparr>hnext = 0, hprev = 4096, hsize = 32, hfree = 0\<rparr>)) 4224 65536"

text \<open>
  Four blocks: 40 bytes in use at 4096, 32 bytes in use at 4168, 64 bytes free at 4232,
  32 bytes in use at 4328.
\<close>

definition heap_four :: state where
  "heap_four =
     mk_state ((\<lambda>_. hdr0)(4096 := \<lparr>hnext = 4168, hprev = 0, hsize = 40, hfree = 0\<rparr>,
                           4168 := \<lparr>hnext = 4232, hprev = 4096, hsize = 32, hfree = 0\<rparr>,
                           4232 := \<lparr>hnext = 4328, hprev = 4168, hsize = 64, hfree = 1\<rparr>,
                           4328 := \<lparr>hnext = 0, hprev = 4232, hsize = 32, hfree = 0\<rparr>)) 4392 65536"

text \<open>A single free block of 100 bytes: the head and the tail of the directory.\<close>

definition heap_free_tail :: state where
  "heap_free_tail =
     mk_state ((\<lambda>_. hdr0)(4096 := \<lparr>hnext = 0, hprev = 0, hsize = 100, hfree = 1\<rparr>)) 4228 65536"

text \<open>A block of 32 bytes in use, followed by a free block of 64 bytes that is the tail.\<close>

definition heap_used_free :: state where
  "heap_used_free =
     mk_state ((\<lambda>_. hdr0)(4096 := \<lparr>hnext = 4160, hprev = 0, hsize = 32, hfree = 0\<rparr>,
                           4160 := \<lparr>hnext = 0, hprev = 4096, hsize = 64, hfree = 1\<rparr>)) 4256 65536"

text \<open>A free block of 100 bytes followed by the last block, of 32 bytes, in use.\<close>

definition heap_free_used :: state where
  "heap_free_used =
     mk_state ((\<lambda>_. hdr0)(4096 := \<lparr>hnext = 4228, hprev = 0, hsize = 100, hfree = 1\<rparr>,
                           4228 := \<lparr>hnext = 0, hprev = 4096, hsize = 32, hfree = 0\<rparr>)) 4292 65536"

section \<open>Basic facts about the store\<close>

lemmas eval_defs = mk_state_def hdr0_def rd_def wr_def rd_byte_def wr_byte_def in_heap_def
  bind_f_def sizeof_Header_def sizeof_header_ptr_def MIN_BLOCK_SIZE_def Let_def valid_hdr_def
  sbrk_def brk_def

lemma in_heap_hdrs_update [simp]: "in_heap (s\<lparr>hdrs := m\<rparr>) a n = in_heap s a n"
  by (simp add: in_heap_def)

lemma valid_hdr_hdrs_update [simp]: "valid_hdr (s\<lparr>hdrs := m\<rparr>) a = valid_hdr s a"
  by (simp add: valid_hdr_def)

lemma rd_valid: "valid_hdr s a \<Longrightarrow> rd s a = Inr (hdrs s a)"
  by (simp add: rd_def valid_hdr_def)

lemma wr_valid: "valid_hdr s a \<Longrightarrow> wr s a f = Inr (s\<lparr>hdrs := (hdrs s)(a := f (hdrs s a))\<rparr>)"
  by (simp add: wr_def valid_hdr_def)

lemma rd_null: "rd s 0 = Inl NullDeref"
  by (simp add: rd_def)

lemma wr_null: "wr s 0 f = Inl NullDeref"
  by (simp add: wr_def)

lemma bind_f_Inr [simp]: "bind_f (Inr x) f = f x"
  by (simp add: bind_f_def)

lemma bind_f_Inl [simp]: "bind_f (Inl e) f = Inl e"
  by (simp add: bind_f_def)

section \<open>Block Directory primitives: merge\<close>

text \<open>The store after \<^verbatim>\<open>merge_blocks(a, b)\<close>, for \<open>a\<close> below \<open>b\<close>.\<close>

lemma merge_blocks_state:
  assumes a: "valid_hdr s a" and b: "valid_hdr s b" and ab: "a < b"
    and c: "hnext (hdrs s b) = 0 \<or> valid_hdr s (hnext (hdrs s b))"
  shows "merge_blocks s a b =
           Inr (s\<lparr>hdrs :=
                  (let c = hnext (hdrs s b);
                       m = (hdrs s)(a := (hdrs s a)\<lparr>hsize := sizeof_Header + hsize (hdrs s a) + hsize (hdrs s b),
                                                   hnext := c\<rparr>)
                   in if c = 0 then m else m(c := (m c)\<lparr>hprev := a\<rparr>))\<rparr>, a)"
proof -
  have ne: "a \<noteq> b" and ng: "\<not> b < a" using ab by auto
  show ?thesis
  proof (cases "hnext (hdrs s b) = 0")
    case True
    then show ?thesis using a b ne ng
      by (simp add: merge_blocks_def rd_valid wr_valid Let_def)
  next
    case False
    then have "valid_hdr s (hnext (hdrs s b))" using c by simp
    then show ?thesis using a b ne ng False
      by (simp add: merge_blocks_def rd_valid wr_valid Let_def)
  qed
qed

text \<open>
  C6. Let \<open>a\<close> and \<open>b\<close> be readable headers, \<open>b\<close> at the higher address, and let \<open>c\<close>, the
  successor of \<open>b\<close>, be null or readable. Then \<^verbatim>\<open>merge_blocks(a, b)\<close> returns \<open>a\<close>; the size
  of \<open>a\<close> becomes \<^verbatim>\<open>sizeof(Header)\<close> plus the two sizes; the next link of \<open>a\<close> becomes \<open>c\<close>;
  when \<open>c\<close> is not null its previous link becomes \<open>a\<close>; the free flag of \<open>a\<close> is as before.
  Nothing else changes: a header other than \<open>a\<close> and \<open>c\<close> is as before, \<open>c\<close> (when it is not
  \<open>a\<close> itself) differs in its previous link only, and the data bytes, the head pointer and
  the heap boundary are as before.
\<close>

theorem merge_blocks_effect:
  assumes a: "valid_hdr s a" and b: "valid_hdr s b" and ab: "a < b"
    and c: "hnext (hdrs s b) = 0 \<or> valid_hdr s (hnext (hdrs s b))"
  shows "\<exists>s'. merge_blocks s a b = Inr (s', a) \<and>
           hsize (hdrs s' a) = sizeof_Header + hsize (hdrs s a) + hsize (hdrs s b) \<and>
           hnext (hdrs s' a) = hnext (hdrs s b) \<and>
           (hnext (hdrs s b) \<noteq> 0 \<longrightarrow> hprev (hdrs s' (hnext (hdrs s b))) = a) \<and>
           hfree (hdrs s' a) = hfree (hdrs s a) \<and>
           (\<forall>x. x \<noteq> a \<and> x \<noteq> hnext (hdrs s b) \<longrightarrow> hdrs s' x = hdrs s x) \<and>
           (hnext (hdrs s b) \<noteq> 0 \<and> hnext (hdrs s b) \<noteq> a \<longrightarrow>
              hdrs s' (hnext (hdrs s b)) = (hdrs s (hnext (hdrs s b)))\<lparr>hprev := a\<rparr>) \<and>
           s' = s\<lparr>hdrs := hdrs s'\<rparr>"
  unfolding merge_blocks_state [OF a b ab c]
  by (simp add: Let_def)

theorem merge_blocks_effect_witness:
  "valid_hdr heap_four 4168 \<and> valid_hdr heap_four 4232 \<and> (4168 :: addr) < 4232 \<and>
   valid_hdr heap_four (hnext (hdrs heap_four 4232)) \<and>
   (\<exists>s'. merge_blocks heap_four 4168 4232 = Inr (s', 4168) \<and>
      hdrs s' 4168 = \<lparr>hnext = 4328, hprev = 4096, hsize = 128, hfree = 0\<rparr> \<and>
      hdrs s' 4328 = \<lparr>hnext = 0, hprev = 4168, hsize = 32, hfree = 0\<rparr> \<and>
      hdrs s' 4096 = hdrs heap_four 4096)"
proof -
  have v: "valid_hdr heap_four 4168" "valid_hdr heap_four 4232" "(4168 :: addr) < 4232"
    and n: "hnext (hdrs heap_four 4232) = 4328" and w: "valid_hdr heap_four 4328"
    and h1: "hdrs heap_four 4168 = \<lparr>hnext = 4232, hprev = 4096, hsize = 32, hfree = 0\<rparr>"
    and h2: "hsize (hdrs heap_four 4232) = 64"
    and h3: "hdrs heap_four 4328 = \<lparr>hnext = 0, hprev = 4232, hsize = 32, hfree = 0\<rparr>"
    by (simp_all add: heap_four_def eval_defs)
  from merge_blocks_effect [of heap_four 4168 4232] v n w
  obtain s' where m: "merge_blocks heap_four 4168 4232 = Inr (s', 4168)"
    and sz: "hsize (hdrs s' 4168) = sizeof_Header + hsize (hdrs heap_four 4168) + hsize (hdrs heap_four 4232)"
    and nx: "hnext (hdrs s' 4168) = 4328"
    and fr: "hfree (hdrs s' 4168) = hfree (hdrs heap_four 4168)"
    and other: "\<forall>x. x \<noteq> 4168 \<and> x \<noteq> 4328 \<longrightarrow> hdrs s' x = hdrs heap_four x"
    and succ: "hdrs s' 4328 = (hdrs heap_four 4328)\<lparr>hprev := 4168\<rparr>"
    by auto
  from other have o: "hdrs s' 4096 = hdrs heap_four 4096"
    by simp
  have "hprev (hdrs s' 4168) = 4096"
    using merge_blocks_state [of heap_four 4168 4232] v n w m h1 by (auto simp: Let_def)
  with sz nx fr h1 h2 have "hdrs s' 4168 = \<lparr>hnext = 4328, hprev = 4096, hsize = 128, hfree = 0\<rparr>"
    by (cases "hdrs s' 4168") (simp add: sizeof_Header_def)
  with m succ h3 o v n w show ?thesis
    by auto
qed

section \<open>Deallocator: null and untracked addresses\<close>

lemma find_header_untracked:
  "chain s a xs \<Longrightarrow> header \<notin> set xs \<Longrightarrow> find_header s header a = Some (Inr s)"
proof (induction xs arbitrary: a)
  case Nil
  then show ?case by (simp add: find_header.simps)
next
  case (Cons x xs)
  then have v: "valid_hdr s a" and ne: "a \<noteq> header"
    and ch: "chain s (hnext (hdrs s a)) xs" and nin: "header \<notin> set xs"
    by auto
  from v have nz: "a \<noteq> 0" by (simp add: valid_hdr_def)
  have "find_header s header a = find_header s header (hnext (hdrs s a))"
    using nz ne v by (subst find_header.simps) (simp add: rd_valid)
  with Cons.IH [OF ch nin] show ?case by simp
qed

text \<open>
  C7. \<^verbatim>\<open>free(NULL)\<close> and \<^verbatim>\<open>free_with_caution(NULL)\<close> return with the state as it was. When
  the directory is a chain \<open>xs\<close> of readable headers ending in the null pointer and the
  header address recovered from \<open>address\<close> is not one of them, \<^verbatim>\<open>free_with_caution\<close> returns
  with the whole state (headers, data, head pointer, heap boundary) as it was.
\<close>

theorem free_untracked_noop:
  "free s 0 = Some (Inr s) \<and> free_with_caution s 0 = Some (Inr s) \<and>
   (chain s (first s) xs \<and> address - sizeof_Header \<notin> set xs
      \<longrightarrow> free_with_caution s address = Some (Inr s))"
  by (auto simp: free_def free_with_caution_def Let_def intro: find_header_untracked)

theorem free_untracked_noop_witness:
  "chain heap_four (first heap_four) [4096, 4168, 4232, 4328] \<and>
   4140 - sizeof_Header \<notin> set [4096, 4168, 4232, 4328 :: addr] \<and>
   free_with_caution heap_four 4140 = Some (Inr heap_four)"
  using free_untracked_noop [of heap_four "[4096, 4168, 4232, 4328]" 4140]
  by (simp add: heap_four_def eval_defs)

section \<open>Null links followed by split and by the reallocator\<close>

text \<open>
  C9. Let \<open>h\<close> be a readable header with no successor, and let the remainder check of
  \<^verbatim>\<open>split_block(h, n)\<close> pass, the place of the new header being writable. Then the call
  ends in a null dereference, at \<^verbatim>\<open>(header->next)->prev\<close>, and no remainder is linked in.
  \<^verbatim>\<open>malloc\<close> reaches that call: when \<open>h\<close> is the head of the directory, free and large
  enough for a request of \<open>n\<close> bytes, \<^verbatim>\<open>malloc(n)\<close> ends in the same null dereference.
\<close>

theorem split_block_tail_null_deref:
  assumes h: "valid_hdr s h" and tail: "hnext (hdrs s h) = 0"
    and rem: "MIN_BLOCK_SIZE \<le> hsize (hdrs s h) - n - sizeof_header_ptr"
    and nh: "valid_hdr s (h + sizeof_Header + n)"
  shows "split_block s h n = Inl NullDeref \<and>
         (first s = h \<and> hfree (hdrs s h) \<noteq> 0 \<and> MIN_BLOCK_SIZE \<le> n \<and> n \<le> hsize (hdrs s h)
            \<longrightarrow> malloc s n = Some (Inl NullDeref))"
proof -
  from rem have chk: "\<not> hsize (hdrs s h) - n - sizeof_header_ptr < MIN_BLOCK_SIZE"
    by simp
  have sp: "split_block s h n = Inl NullDeref"
  proof (cases "sizeof_Header + n = 0")
    case True
    then have e: "h + sizeof_Header + n = h"
      by (simp add: add.assoc)
    show ?thesis unfolding split_block_def Let_def e using h tail chk
      by (simp add: rd_valid wr_valid wr_null)
  next
    case False
    then show ?thesis using h tail chk nh
      by (simp add: split_block_def rd_valid wr_valid wr_null Let_def)
  qed
  have "malloc s n = Some (Inl NullDeref)"
    if f: "first s = h" and fr: "hfree (hdrs s h) \<noteq> 0" and mn: "MIN_BLOCK_SIZE \<le> n"
      and fit: "n \<le> hsize (hdrs s h)"
  proof -
    from h have nz: "h \<noteq> 0" by (simp add: valid_hdr_def)
    have run: "merge_free_run s h = Some (Inr (s, h))"
      using h tail by (subst merge_free_run.simps) (simp add: rd_valid)
    have "find_fit s n h 0 = Some (Inl NullDeref)"
      using nz run h fr fit sp by (subst find_fit.simps) (simp add: rd_valid)
    moreover from mn have "\<not> n < MIN_BLOCK_SIZE" by simp
    ultimately show ?thesis using f by (simp add: malloc_def)
  qed
  with sp show ?thesis by blast
qed

theorem split_block_tail_null_deref_witness:
  "valid_hdr heap_free_tail 4096 \<and> hnext (hdrs heap_free_tail 4096) = 0 \<and>
   MIN_BLOCK_SIZE \<le> hsize (hdrs heap_free_tail 4096) - 32 - sizeof_header_ptr \<and>
   valid_hdr heap_free_tail (4096 + sizeof_Header + 32) \<and>
   first heap_free_tail = 4096 \<and> hfree (hdrs heap_free_tail 4096) \<noteq> 0 \<and>
   MIN_BLOCK_SIZE \<le> 32 \<and> 32 \<le> hsize (hdrs heap_free_tail 4096) \<and>
   split_block heap_free_tail 4096 32 = Inl NullDeref \<and>
   malloc heap_free_tail 32 = Some (Inl NullDeref)"
  using split_block_tail_null_deref [of heap_free_tail 4096 32]
  by (simp add: heap_free_tail_def eval_defs)

text \<open>
  C10. Let the block at \<open>address\<close> have a readable successor \<open>b\<close> that is free and is the
  tail of the directory. Then \<^verbatim>\<open>realloc(address, sz)\<close>, for every \<open>sz\<close>, ends in a null
  dereference: the loop condition reads the free flag of the successor of \<open>b\<close> before any
  merge.
\<close>

theorem realloc_absorb_null_deref:
  assumes nz: "address \<noteq> 0" and h: "valid_hdr s (address - sizeof_Header)"
    and nx: "hnext (hdrs s (address - sizeof_Header)) = b"
    and b: "valid_hdr s b" and fr: "hfree (hdrs s b) \<noteq> 0" and tail: "hnext (hdrs s b) = 0"
  shows "realloc s address sz = Some (Inl NullDeref)"
proof -
  from b have bnz: "b \<noteq> 0" by (simp add: valid_hdr_def)
  have ab: "absorb_next s (address - sizeof_Header) = Some (Inl NullDeref)"
    using h nx b tail by (subst absorb_next.simps) (simp add: rd_valid rd_null)
  show ?thesis
    using nz h nx b fr bnz ab by (simp add: realloc_def rd_valid Let_def)
qed

theorem realloc_absorb_null_deref_witness:
  "(4128 :: addr) \<noteq> 0 \<and> valid_hdr heap_used_free (4128 - sizeof_Header) \<and>
   hnext (hdrs heap_used_free (4128 - sizeof_Header)) = 4160 \<and>
   valid_hdr heap_used_free 4160 \<and> hfree (hdrs heap_used_free 4160) \<noteq> 0 \<and>
   hnext (hdrs heap_used_free 4160) = 0 \<and>
   realloc heap_used_free 4128 48 = Some (Inl NullDeref)"
  using realloc_absorb_null_deref [of 4128 heap_used_free 4160 48]
  by (simp add: heap_used_free_def eval_defs)

section \<open>The allocator never returns the null pointer\<close>

lemma bind_f_eq_Inr: "bind_f m f = Inr y \<Longrightarrow> \<exists>x. m = Inr x \<and> f x = Inr y"
  by (cases m) simp_all

lemma wr_Inr_valid: "wr s a f = Inr s' \<Longrightarrow> valid_hdr s a"
  by (auto simp: wr_def valid_hdr_def split: if_splits)

lemma valid_hdr_data_not_null: "valid_hdr s a \<Longrightarrow> a + sizeof_Header \<noteq> 0"
proof
  assume v: "valid_hdr s a" and z: "a + sizeof_Header = 0"
  from v have "uint a + 32 \<le> uint (brk_cur s)"
    by (simp add: valid_hdr_def in_heap_def)
  moreover have "uint (brk_cur s) < 2 ^ 64"
    using uint_bounded [of "brk_cur s"] by simp
  ultimately have lt: "uint a + 32 < 2 ^ 64" by simp
  have nn: "0 \<le> uint a" by simp
  from lt nn have "uint (a + 32) = uint a + 32"
    by (simp add: uint_word_ariths take_bit_int_eq_self)
  moreover from z have "uint (a + 32) = 0"
    by (simp add: sizeof_Header_def)
  ultimately show False using nn by simp
qed

lemma find_fit_not_null:
  assumes "find_fit s sz cur lst = Some r"
  shows "\<forall>s' p. r = Inr (s', Found p) \<longrightarrow> p \<noteq> 0"
  using assms
proof (rule find_fit.raw_induct [rotated,
        where P = "\<lambda>s sz cur lst r. \<forall>s' p. r = Inr (s', Found p) \<longrightarrow> p \<noteq> 0"], goal_cases)
  case (1 find_fit s sz cur lst r)
  note IH = "1"(1) and body = "1"(2)
  show ?case
  proof (cases "cur = 0")
    case True
    with body show ?thesis by auto
  next
    case nz: False
    show ?thesis
    proof (cases "merge_free_run s cur")
      case None
      with body nz show ?thesis by auto
    next
      case (Some r1)
      show ?thesis
      proof (cases r1)
        case (Inl e)
        with body nz Some show ?thesis by auto
      next
        case (Inr sc)
        obtain s1 c where sc: "sc = (s1, c)" by (cases sc)
        show ?thesis
        proof (cases "rd s1 c")
          case (Inl e)
          with body nz Some Inr sc show ?thesis by auto
        next
          case rdh: (Inr h)
          show ?thesis
          proof (cases "hfree h \<noteq> 0 \<and> sz \<le> hsize h")
            case True
            with body nz Some Inr sc rdh
            have r: "bind_f (split_block s1 c sz) (\<lambda>(s2, _).
                    bind_f (wr s2 c (\<lambda>h. h\<lparr>hfree := 0\<rparr>)) (\<lambda>s3.
                      Inr (s3, Found (c + sizeof_Header)))) = r"
              by simp
            have "p \<noteq> 0" if "r = Inr (s', Found p)" for s' p
            proof -
              from r that obtain x where "split_block s1 c sz = Inr x"
                and "(case x of (s2, _) \<Rightarrow>
                        bind_f (wr s2 c (\<lambda>h. h\<lparr>hfree := 0\<rparr>)) (\<lambda>s3.
                          Inr (s3, Found (c + sizeof_Header)))) = Inr (s', Found p)"
                using bind_f_eq_Inr by fastforce
              then obtain s2 s3 where w: "wr s2 c (\<lambda>h. h\<lparr>hfree := 0\<rparr>) = Inr s3"
                and p: "Inr (s3, Found (c + sizeof_Header)) = (Inr (s', Found p) :: fault + state \<times> scan)"
                by (cases x) (auto dest!: bind_f_eq_Inr)
              from w have "valid_hdr s2 c"
                by (rule wr_Inr_valid)
              then have "c + sizeof_Header \<noteq> 0"
                by (rule valid_hdr_data_not_null)
              with p show ?thesis by simp
            qed
            then show ?thesis by blast
          next
            case False
            with body nz Some Inr sc rdh have "find_fit s1 sz (hnext h) c = Some r" by simp
            from IH [OF this] show ?thesis .
          qed
        qed
      qed
    qed
  qed
qed

lemma extend_heap_not_null:
  assumes "extend_heap s sz lst = Inr (s', p)"
  shows "p \<noteq> 0"
proof -
  obtain nb s0 where sb: "sbrk s (sz + sizeof_Header) = (nb, s0)"
    by (cases "sbrk s (sz + sizeof_Header)")
  with assms have "bind_f (wr s0 nb (\<lambda>h. h\<lparr>hprev := lst\<rparr>)) (\<lambda>s1.
         bind_f (wr s1 nb (\<lambda>h. h\<lparr>hnext := 0\<rparr>)) (\<lambda>s2.
         bind_f (wr s2 nb (\<lambda>h. h\<lparr>hsize := sz\<rparr>)) (\<lambda>s3.
         bind_f (wr s3 nb (\<lambda>h. h\<lparr>hfree := 0\<rparr>)) (\<lambda>s4.
           Inr (if first s4 = 0 then s4\<lparr>first := nb\<rparr> else s4,
                nb + sizeof_Header))))) = Inr (s', p)"
    by (simp add: extend_heap_def)
  then obtain s1 s2 s3 s4 where w: "wr s0 nb (\<lambda>h. h\<lparr>hprev := lst\<rparr>) = Inr s1"
    and "wr s1 nb (\<lambda>h. h\<lparr>hnext := 0\<rparr>) = Inr s2"
    and "wr s2 nb (\<lambda>h. h\<lparr>hsize := sz\<rparr>) = Inr s3"
    and "wr s3 nb (\<lambda>h. h\<lparr>hfree := 0\<rparr>) = Inr s4"
    and p: "p = nb + sizeof_Header"
    by (auto dest!: bind_f_eq_Inr)
  from w have "valid_hdr s0 nb"
    by (rule wr_Inr_valid)
  then have "nb + sizeof_Header \<noteq> 0"
    by (rule valid_hdr_data_not_null)
  with p show ?thesis by simp
qed

lemma malloc_not_null:
  assumes m: "malloc s n = Some (Inr (s', p))"
  shows "p \<noteq> 0"
proof -
  let ?sz = "if n < MIN_BLOCK_SIZE then MIN_BLOCK_SIZE else n"
  show ?thesis
  proof (cases "find_fit s ?sz (first s) 0")
    case None
    with m show ?thesis by (simp add: malloc_def)
  next
    case (Some r)
    show ?thesis
    proof (cases r)
      case (Inl e)
      with m Some show ?thesis by (simp add: malloc_def)
    next
      case (Inr x)
      obtain s1 sc where x: "x = (s1, sc)" by (cases x)
      show ?thesis
      proof (cases sc)
        case (Found q)
        with m Some Inr x have "r = Inr (s', Found p)" by (simp add: malloc_def)
        with find_fit_not_null [OF Some] show ?thesis by blast
      next
        case (NoFit lst)
        with m Some Inr x have "extend_heap s1 ?sz lst = Inr (s', p)" by (simp add: malloc_def)
        then show ?thesis by (rule extend_heap_not_null)
      qed
    qed
  qed
qed

section \<open>Block Directory primitives: split\<close>

text \<open>
  What \<^verbatim>\<open>split_block\<close> does. Its check is made on the wrapped difference
  \<^verbatim>\<open>header->size - new_size - sizeof(header)\<close>, where \<^verbatim>\<open>sizeof(header)\<close> is the size of a
  pointer; below \<^verbatim>\<open>MIN_BLOCK_SIZE\<close> nothing is written. Otherwise, for a header with a
  readable successor, the new header is linked in and the size of the old one stays as it
  was.
\<close>

lemma split_block_noop:
  assumes "valid_hdr s h" and "hsize (hdrs s h) - n - sizeof_header_ptr < MIN_BLOCK_SIZE"
  shows "split_block s h n = Inr (s, 0)"
  using assms by (simp add: split_block_def rd_valid Let_def)

lemma split_block_effect:
  assumes h: "valid_hdr s h" and c: "valid_hdr s (hnext (hdrs s h))"
    and rem: "MIN_BLOCK_SIZE \<le> hsize (hdrs s h) - n - sizeof_header_ptr"
    and nh: "valid_hdr s (h + sizeof_Header + n)" and ne: "sizeof_Header + n \<noteq> 0"
  shows "\<exists>s'. split_block s h n = Inr (s', h + sizeof_Header + n) \<and>
              hsize (hdrs s' h) = hsize (hdrs s h) \<and>
              hnext (hdrs s' h) = h + sizeof_Header + n \<and>
              hsize (hdrs s' (h + sizeof_Header + n)) = hsize (hdrs s h) - n - sizeof_header_ptr \<and>
              hfree (hdrs s' (h + sizeof_Header + n)) = 1"
proof -
  from rem have chk: "\<not> hsize (hdrs s h) - n - sizeof_header_ptr < MIN_BLOCK_SIZE"
    by simp
  from ne have d: "h + sizeof_Header + n \<noteq> h"
    by (simp add: add.assoc)
  show ?thesis
    using h c chk nh d
    by (simp add: split_block_def rd_valid wr_valid Let_def)
qed

text \<open>
  C1. The claim has \<^verbatim>\<open>split\<close> truncate the size of the block to the requested size and
  give the remainder the old size less the request less the header overhead. On the heap
  \<open>heap_free_used\<close> (a free block of 100 bytes at 4096, then a block in use),
  \<^verbatim>\<open>split_block(4096, 32)\<close> returns the new header 4160, whose size is 60 (100 - 32 - 8),
  and the size of the block at 4096 is still 100. \<^verbatim>\<open>malloc(32)\<close> makes that call: it
  returns 4128 for a block in use that still records 100 bytes, over the new free header.
\<close>

theorem split_block_keeps_old_size:
  "map_sum id (\<lambda>(s', p). (p, hsize (hdrs s' 4096), hsize (hdrs s' p)))
     (split_block heap_free_used 4096 32)
   = Inr (4160, 100, 60) \<and>
   map_option (map_sum id (\<lambda>(s', p). (p, hdrs s' 4096, hdrs s' 4160))) (malloc heap_free_used 32)
   = Some (Inr (4128, \<lparr>hnext = 4160, hprev = 0, hsize = 100, hfree = 0\<rparr>,
                \<lparr>hnext = 4228, hprev = 4096, hsize = 60, hfree = 1\<rparr>))"
  by (simp add: malloc_def find_fit.simps merge_free_run.simps split_block_def
      heap_free_used_def eval_defs)

text \<open>
  C5. The claim has \<^verbatim>\<open>split\<close> do nothing whenever the remainder would be below the floor.
  On the heap \<open>heap_exact\<close> (a free block of exactly 32 bytes at 4096, then a block in use
  at 4160), \<^verbatim>\<open>split_block(4096, 32)\<close> has a remainder of 32 - 32 - 8 bytes; the unsigned
  difference wraps, the check passes, and the call writes a free header of size
  \<open>2^64 - 8\<close> at 4160, over the header of the block in use, linked to itself.
  \<^verbatim>\<open>malloc(32)\<close> makes that call.
\<close>

theorem split_block_exact_fit_splits:
  "map_sum id (\<lambda>(s', p). (p, hdrs s' 4160)) (split_block heap_exact 4096 32)
   = Inr (4160, \<lparr>hnext = 4160, hprev = 4160, hsize = - 8, hfree = 1\<rparr>) \<and>
   map_option (map_sum id (\<lambda>(s', p). (p, hdrs s' 4160))) (malloc heap_exact 32)
   = Some (Inr (4128, \<lparr>hnext = 4160, hprev = 4160, hsize = - 8, hfree = 1\<rparr>))"
  by (simp add: malloc_def find_fit.simps merge_free_run.simps split_block_def
      heap_exact_def eval_defs)

section \<open>Allocator: heap growth\<close>

text \<open>
  C3. The claim has the previous tail point to the block that heap growth appends. On the
  heap \<open>heap_one\<close> (one block in use at 4096, growth granted), \<^verbatim>\<open>malloc(32)\<close> builds the
  new header at 4160 and returns 4192; the new header has 4096 as its previous link, and
  the next link of the block at 4096 is still null.
\<close>

theorem malloc_grow_leaves_tail_unlinked:
  "map_option (map_sum id (\<lambda>(s', p). (p, hnext (hdrs s' 4096), hprev (hdrs s' 4160), first s')))
     (malloc (heap_one 65536) 32)
   = Some (Inr (4192, 0, 4096, 4096))"
  by (simp add: malloc_def find_fit.simps merge_free_run.simps extend_heap_def heap_one_def
      eval_defs)

text \<open>
  C4. The claim has a denied growth request reported by a null result, the directory
  unchanged. On the heap \<open>heap_one 4160\<close> (one block in use, the boundary at its limit),
  \<^verbatim>\<open>malloc(32)\<close> takes the failure indicator of \<^verbatim>\<open>sbrk\<close> for a header address and writes
  through it; \<^verbatim>\<open>realloc(4128, 64)\<close> returns 4128 with the recorded size raised to 64 while
  the boundary is still 4160.
\<close>

theorem growth_denied_not_reported:
  "malloc (heap_one 4160) 32 = Some (Inl BadAccess) \<and>
   map_option (map_sum id (\<lambda>(s', p). (p, hsize (hdrs s' 4096), brk_cur s')))
     (realloc (heap_one 4160) 4128 64)
   = Some (Inr (4128, 64, 4160))"
  by (simp add: malloc_def find_fit.simps merge_free_run.simps extend_heap_def realloc_def
      heap_one_def eval_defs unsigned_minus_1_eq_mask mask_eq_exp_minus_1)

section \<open>Reallocator: shrinking and the fallback\<close>

text \<open>
  C2. The claim has a request below the current size shrink the block in place and
  return the same pointer. On the heap \<open>heap_four\<close>, \<^verbatim>\<open>realloc(4128, 32)\<close> of the block of 40
  bytes at 4096 does not take the branch of \<^verbatim>\<open>size_diff < 0\<close> (an unsigned comparison); it
  allocates the free block at 4232, copies 40 bytes, frees the block at 4096 and returns
  4264.
\<close>

theorem realloc_shrink_moves_block:
  "map_option (map_sum id (\<lambda>(s', p). (p, hfree (hdrs s' 4096), hsize (hdrs s' 4096))))
     (realloc heap_four 4128 32)
   = Some (Inr (4264, 1, 40))"
  by (simp add: realloc_def realloc_fallback_def malloc_def find_fit.simps merge_free_run.simps
      split_block_def copy_data_def copy_loop.simps free_def release_def heap_four_def eval_defs)

text \<open>
  The copy of the fallback. \<^verbatim>\<open>copy_data(src, dst)\<close> writes data bytes only, and only at the
  first \<^verbatim>\<open>src->size\<close> offsets of the data region of \<open>dst\<close>; when no byte written is a byte
  still to be read, these bytes become the \<^verbatim>\<open>src->size\<close> data bytes of \<open>src\<close>.
\<close>

lemma word_le_Suc_cases:
  fixes i j n :: "64 word"
  assumes "i < n"
  shows "(i \<le> j) = (j = i \<or> i + 1 \<le> j)"
proof -
  from assms have lt: "unat i < unat n" by (simp add: word_less_nat_alt)
  moreover have "unat n < 2 ^ 64" using unsigned_less [of n] by simp
  ultimately have "unat i + 1 < 2 ^ 64" by simp
  then have u: "unat (i + 1) = unat i + 1"
    by (simp add: unat_word_ariths)
  show ?thesis
    by (auto simp: word_le_nat_alt u word_unat_eq_iff)
qed

lemma word_Suc_not_le:
  fixes i n :: "64 word"
  assumes "i < n"
  shows "\<not> i + 1 \<le> i"
proof -
  from assms have lt: "unat i < unat n" by (simp add: word_less_nat_alt)
  moreover have "unat n < 2 ^ 64" using unsigned_less [of n] by simp
  ultimately have "unat i + 1 < 2 ^ 64" by simp
  then have u: "unat (i + 1) = unat i + 1"
    by (simp add: unat_word_ariths)
  show ?thesis
    by (simp add: word_le_nat_alt u)
qed

lemma copy_loop_effect:
  "copy_loop s src dst i = Inr s' \<Longrightarrow>
   s' = s\<lparr>bytes := bytes s'\<rparr> \<and>
   (\<forall>a. (\<forall>j. i \<le> j \<and> j < hsize (hdrs s src) \<longrightarrow> a \<noteq> dst + sizeof_Header + j) \<longrightarrow> bytes s' a = bytes s a) \<and>
   ((\<forall>j k. i \<le> j \<and> j < hsize (hdrs s src) \<and> i \<le> k \<and> k < hsize (hdrs s src)
        \<longrightarrow> dst + sizeof_Header + j \<noteq> src + sizeof_Header + k) \<longrightarrow>
    (\<forall>j. i \<le> j \<and> j < hsize (hdrs s src) \<longrightarrow> bytes s' (dst + sizeof_Header + j) = bytes s (src + sizeof_Header + j)))"
proof (induction s src dst i arbitrary: s' rule: copy_loop.induct)
  case (1 s src dst i)
  let ?n = "hsize (hdrs s src)"
  from "1.prems" obtain h where rdh: "rd s src = Inr h"
    by (subst (asm) copy_loop.simps) (auto split: sum.splits)
  then have h: "h = hdrs s src"
    by (auto simp: rd_def split: if_splits)
  show ?case
  proof (cases "i < ?n")
    case False
    with "1.prems" rdh h have "s' = s"
      by (subst (asm) copy_loop.simps) simp
    with False show ?thesis by auto
  next
    case True
    with "1.prems" rdh h obtain b s1 where rb: "rd_byte s (src + sizeof_Header + i) = Inr b"
      and wb: "wr_byte s (dst + sizeof_Header + i) b = Inr s1"
      and rest: "copy_loop s1 src dst (i + 1) = Inr s'"
      by (subst (asm) copy_loop.simps) (auto split: sum.splits)
    from rb have b: "b = bytes s (src + sizeof_Header + i)"
      by (auto simp: rd_byte_def split: if_splits)
    from wb have s1: "s1 = s\<lparr>bytes := (bytes s)(dst + sizeof_Header + i := b)\<rparr>"
      by (auto simp: wr_byte_def split: if_splits)
    then have n1: "hsize (hdrs s1 src) = ?n" by simp
    from True h have ih: "i < hsize h" by simp
    note IH = "1.IH" [OF rdh ih rb wb rest, unfolded n1]
    have split: "\<And>j. (i \<le> j) = (j = i \<or> i + 1 \<le> j)"
      using word_le_Suc_cases [OF True] .
    have nle: "\<not> i + 1 \<le> i"
      using word_Suc_not_le [OF True] .
    have inj: "\<And>j. dst + sizeof_Header + j = dst + sizeof_Header + i \<longleftrightarrow> j = i"
      by simp
    from IH have st: "s' = s1\<lparr>bytes := bytes s'\<rparr>" by blast
    with s1 have c1: "s' = s\<lparr>bytes := bytes s'\<rparr>"
      by (metis (no_types, lifting) state.surjective state.update_convs(2))
    have c2: "bytes s' a = bytes s a"
      if "\<forall>j. i \<le> j \<and> j < ?n \<longrightarrow> a \<noteq> dst + sizeof_Header + j" for a
    proof -
      from that True have "a \<noteq> dst + sizeof_Header + i" by auto
      moreover from that have "\<forall>j. i + 1 \<le> j \<and> j < ?n \<longrightarrow> a \<noteq> dst + sizeof_Header + j"
        using split by blast
      with IH have "bytes s' a = bytes s1 a" by blast
      ultimately show ?thesis using s1 by simp
    qed
    have c3: "bytes s' (dst + sizeof_Header + j) = bytes s (src + sizeof_Header + j)"
      if dis: "\<forall>j k. i \<le> j \<and> j < ?n \<and> i \<le> k \<and> k < ?n
                 \<longrightarrow> dst + sizeof_Header + j \<noteq> src + sizeof_Header + k"
        and j: "i \<le> j" "j < ?n" for j
    proof (cases "j = i")
      case True
      have "\<forall>k. i + 1 \<le> k \<and> k < ?n \<longrightarrow> dst + sizeof_Header + i \<noteq> dst + sizeof_Header + k"
        using nle by auto
      with IH have "bytes s' (dst + sizeof_Header + i) = bytes s1 (dst + sizeof_Header + i)"
        by blast
      with s1 b True show ?thesis by simp
    next
      case False
      with j split have j1: "i + 1 \<le> j" by blast
      from dis split have "\<forall>j k. i + 1 \<le> j \<and> j < ?n \<and> i + 1 \<le> k \<and> k < ?n
                 \<longrightarrow> dst + sizeof_Header + j \<noteq> src + sizeof_Header + k"
        by blast
      with IH j1 j have "bytes s' (dst + sizeof_Header + j) = bytes s1 (src + sizeof_Header + j)"
        by blast
      moreover from dis j \<open>i < ?n\<close> have "src + sizeof_Header + j \<noteq> dst + sizeof_Header + i"
        by (metis order_refl)
      ultimately show ?thesis using s1 by simp
    qed
    from c1 c2 c3 show ?thesis by blast
  qed
qed

lemma copy_data_effect:
  assumes "copy_data s src dst = Inr s'"
  shows "s' = s\<lparr>bytes := bytes s'\<rparr> \<and>
         (\<forall>a. (\<forall>j. j < hsize (hdrs s src) \<longrightarrow> a \<noteq> dst + sizeof_Header + j)
              \<longrightarrow> bytes s' a = bytes s a) \<and>
         ((\<forall>j k. j < hsize (hdrs s src) \<and> k < hsize (hdrs s src)
              \<longrightarrow> dst + sizeof_Header + j \<noteq> src + sizeof_Header + k) \<longrightarrow>
          (\<forall>j. j < hsize (hdrs s src)
              \<longrightarrow> bytes s' (dst + sizeof_Header + j) = bytes s (src + sizeof_Header + j)))"
  using copy_loop_effect [of s src dst 0 s'] assms
  by (simp add: copy_data_def)

text \<open>
  C8. The claim has \<^verbatim>\<open>realloc\<close> return a failure indicator, the old block untouched, when
  the fresh allocation of its fallback fails. On the heap \<open>heap_two 4292\<close> (two blocks in
  use, the boundary at its limit), \<^verbatim>\<open>realloc(4128, 200)\<close> reaches the fallback, and the
  \<^verbatim>\<open>malloc\<close> it calls writes through the failure indicator of \<^verbatim>\<open>sbrk\<close>.
\<close>

theorem realloc_fallback_growth_denied:
  "realloc (heap_two 4292) 4128 200 = Some (Inl BadAccess)"
  by (simp add: realloc_def realloc_fallback_def malloc_def find_fit.simps merge_free_run.simps
      extend_heap_def heap_two_def eval_defs unsigned_minus_1_eq_mask mask_eq_exp_minus_1)

end
